theory Spec2Isabelle
  imports Complex_Main
begin

section \<open>Python values that reach geocode\_ll.py\<close>

text \<open>
  A Python float: the script only passes floats on (from the parsed reply to the
  UPDATE statement), it never computes with them, so a finite float is kept as the
  rational it denotes. The non-finite floats are values \<open>r.json()\<close> can hold:
  the literal \<open>1e999\<close> parses to \<open>inf\<close>.
\<close>

datatype pyfloat = Fin rat | PosInf | NegInf | NaN

text \<open>What \<open>r.json()\<close> returns: dict, list, str, int, float, bool or None.\<close>

datatype json =
    JNull
  | JBool bool
  | JInt int
  | JFloat pyfloat
  | JStr string
  | JArr "json list"
  | JObj "(string \<times> json) list"

text \<open>
  The exceptions the script can meet. \<open>RuntimeError\<close> is the one geocode raises
  itself (line 30) and the one the first handler of the loop catches (line 73).
  \<open>RecursionError\<close>, which \<open>r.json()\<close> raises on a body nested too deeply, is a
  subclass of RuntimeError, so that handler catches it too. The others are subclasses
  of Exception that are not RuntimeErrors: those of requests (RequestException,
  HTTPError, JSONDecodeError), of the subscripts and conversions of lines 26-28, and
  psycopg2's DatabaseError.
\<close>

datatype pyexc =
    RuntimeError json
  | RecursionError
  | RequestException
  | HTTPError
  | JSONDecodeError
  | AttributeError
  | KeyError
  | IndexError
  | TypeError
  | ValueError
  | OverflowError
  | DatabaseError

fun is_RuntimeError :: "pyexc \<Rightarrow> bool" where
  "is_RuntimeError (RuntimeError v) = True"
| "is_RuntimeError RecursionError = True"
| "is_RuntimeError e = False"

text \<open>Python's truth value of a parsed JSON value (\<open>if v:\<close>, \<open>a and b\<close>).\<close>

fun truthy :: "json \<Rightarrow> bool" where
  "truthy JNull = False"
| "truthy (JBool b) = b"
| "truthy (JInt n) = (n \<noteq> 0)"
| "truthy (JFloat f) = (f \<noteq> Fin 0)"
| "truthy (JStr s) = (s \<noteq> [])"
| "truthy (JArr xs) = (xs \<noteq> [])"
| "truthy (JObj kvs) = (kvs \<noteq> [])"

text \<open>\<open>data.get(k)\<close>: None for a missing key, AttributeError when data is no dict.\<close>

fun py_get :: "json \<Rightarrow> string \<Rightarrow> pyexc + json" where
  "py_get (JObj kvs) k = Inr (case map_of kvs k of None \<Rightarrow> JNull | Some v \<Rightarrow> v)"
| "py_get d k = Inl AttributeError"

text \<open>\<open>d[k]\<close> with a string key.\<close>

fun py_item :: "json \<Rightarrow> string \<Rightarrow> pyexc + json" where
  "py_item (JObj kvs) k = (case map_of kvs k of None \<Rightarrow> Inl KeyError | Some v \<Rightarrow> Inr v)"
| "py_item d k = Inl TypeError"

text \<open>\<open>x[0]\<close>: the keys of a parsed JSON object are strings, so 0 is never one.\<close>

fun py_first :: "json \<Rightarrow> pyexc + json" where
  "py_first (JArr []) = Inl IndexError"
| "py_first (JArr (x # xs)) = Inr x"
| "py_first (JStr []) = Inl IndexError"
| "py_first (JStr (c # cs)) = Inr (JStr [c])"
| "py_first (JObj kvs) = Inl KeyError"
| "py_first d = Inl TypeError"

section \<open>The environment of a run\<close>

text \<open>
  What lines 23-25 yield: \<open>requests.get\<close> fails, \<open>raise_for_status\<close> raises,
  \<open>r.json()\<close> finds no JSON or JSON nested beyond the recursion limit, or the
  body is parsed.
\<close>

datatype http_reply =
    ConnectionFailed
  | BadStatus
  | NotJson
  | NestedTooDeep
  | Body json

text \<open>
  Everything outside the script: the two environment variables, the provider (the
  reply to the k-th outbound request, for a query), Python's own conversions of an
  int and of a str to float (None where they raise), and the store's failures.
\<close>

record env =
  PG_DSN :: "string option"
  GOOGLE_KEY :: "string option"
  http :: "nat \<Rightarrow> string \<Rightarrow> http_reply"
  int_to_float :: "int \<Rightarrow> pyfloat option"
  str_to_float :: "string \<Rightarrow> pyfloat option"
  connect_fails :: bool
  select_fails :: bool
  update_fails :: "int \<Rightarrow> bool"
  commit_fails :: bool
  now :: int

text \<open>One row of public.apartment\_properties\_listings; its text columns are str or None.\<close>

record row =
  rid :: int
  name :: "string option"
  address :: "string option"
  city :: "string option"
  state :: "string option"
  zip_code :: "string option"
  latitude :: "pyfloat option"
  longitude :: "pyfloat option"
  updated_at :: "int option"

text \<open>Console lines, statements sent to the store, outbound requests and sleeps (in ms).\<close>

datatype event =
    LogStarting
  | LogDsnHost string
  | LogLoading
  | LogRowsToProcess nat
  | LogProgress nat nat nat
  | LogQuota nat nat pyexc
  | LogError string pyexc
  | LogNoMatch string
  | LogDone nat nat
  | LogFatal pyexc
  | Connect
  | SqlSelect
  | SqlUpdate pyfloat pyfloat int
  | Commit
  | Rollback
  | Close
  | HttpGet string
  | Sleep nat

text \<open>
  The state a run threads through: the committed table, the table as the open
  transaction sees it, the number of requests sent, the counter \<open>updated\<close> and
  the trace of effects so far.
\<close>

record run_state =
  db :: "row list"
  txn :: "row list"
  calls :: nat
  updated :: nat
  trace :: "event list"

datatype outcome = Returned | SystemExit | Raised pyexc

definition emit :: "event list \<Rightarrow> run_state \<Rightarrow> run_state" where
  "emit es s = s\<lparr>trace := trace s @ es\<rparr>"

definition bind_exc :: "pyexc + 'a \<Rightarrow> ('a \<Rightarrow> pyexc + 'b) \<Rightarrow> pyexc + 'b" where
  "bind_exc m f = (case m of Inl e \<Rightarrow> Inl e | Inr v \<Rightarrow> f v)"

section \<open>make\_query (lines 13-19)\<close>

definition NAME_COL :: string where
  "NAME_COL = ''name''"

definition ADDR_COLS :: "string list" where
  "ADDR_COLS = [''address'', ''city'', ''state'', ''zip_code'']"

text \<open>\<open>row.get(k)\<close> on the text columns make\_query reads.\<close>

definition row_get :: "row \<Rightarrow> string \<Rightarrow> string option" where
  "row_get r k =
     (if k = ''name'' then name r
      else if k = ''address'' then address r
      else if k = ''city'' then city r
      else if k = ''state'' then state r
      else if k = ''zip_code'' then zip_code r
      else None)"

text \<open>\<open>sep.join(parts)\<close>.\<close>

fun join :: "string \<Rightarrow> string list \<Rightarrow> string" where
  "join sep [] = []"
| "join sep [x] = x"
| "join sep (x # y # ys) = x @ sep @ join sep (y # ys)"

text \<open>The for loop of lines 15-18, appending to \<open>parts\<close>.\<close>

fun collect_parts :: "row \<Rightarrow> string list \<Rightarrow> string list \<Rightarrow> string list" where
  "collect_parts r [] parts = parts"
| "collect_parts r (k # ks) parts =
     (case row_get r k of
        None \<Rightarrow> collect_parts r ks parts
      | Some v \<Rightarrow> if v \<noteq> [] then collect_parts r ks (parts @ [v]) else collect_parts r ks parts)"

definition make_query :: "row \<Rightarrow> string" where
  "make_query r = join '', '' (collect_parts r (NAME_COL # ADDR_COLS) [])"

text \<open>A field is present when it is a non-empty text.\<close>

definition present :: "string option \<Rightarrow> bool" where
  "present v = (case v of None \<Rightarrow> False | Some s \<Rightarrow> s \<noteq> [])"

section \<open>geocode (lines 21-31)\<close>

text \<open>\<open>float(x)\<close> on a parsed JSON value.\<close>

fun py_float :: "env \<Rightarrow> json \<Rightarrow> pyexc + pyfloat" where
  "py_float e (JFloat f) = Inr f"
| "py_float e (JInt n) = (case int_to_float e n of None \<Rightarrow> Inl OverflowError | Some f \<Rightarrow> Inr f)"
| "py_float e (JBool b) = Inr (Fin (if b then 1 else 0))"
| "py_float e (JStr s) = (case str_to_float e s of None \<Rightarrow> Inl ValueError | Some f \<Rightarrow> Inr f)"
| "py_float e d = Inl TypeError"

type_synonym coords = "pyfloat option \<times> pyfloat option"

text \<open>Lines 27-28.\<close>

definition extract_location :: "env \<Rightarrow> json \<Rightarrow> pyexc + coords" where
  "extract_location e data =
     bind_exc (py_item data ''results'') (\<lambda>results.
     bind_exc (py_first results) (\<lambda>r0.
     bind_exc (py_item r0 ''geometry'') (\<lambda>g.
     bind_exc (py_item g ''location'') (\<lambda>loc.
     bind_exc (py_item loc ''lat'') (\<lambda>latv.
     bind_exc (py_float e latv) (\<lambda>lat.
     bind_exc (py_item loc ''lng'') (\<lambda>lngv.
     bind_exc (py_float e lngv) (\<lambda>lng.
     Inr (Some lat, Some lng)))))))))"

text \<open>Lines 26-31, on the parsed body; \<open>and\<close> reads "results" only when the status is "OK".\<close>

definition parse_reply :: "env \<Rightarrow> json \<Rightarrow> pyexc + coords" where
  "parse_reply e data =
     bind_exc (py_get data ''status'') (\<lambda>status.
     bind_exc (if status = JStr ''OK'' then py_get data ''results'' else Inr (JBool False)) (\<lambda>res.
       if truthy res then extract_location e data
       else if status = JStr ''OVER_QUERY_LIMIT'' \<or> status = JStr ''RESOURCE_EXHAUSTED''
         then Inl (RuntimeError status)
       else Inr (None, None)))"

definition geocode :: "env \<Rightarrow> string \<Rightarrow> run_state \<Rightarrow> (pyexc + coords) \<times> run_state" where
  "geocode e q s =
     (case http e (calls s) q of
        ConnectionFailed \<Rightarrow> Inl RequestException
      | BadStatus \<Rightarrow> Inl HTTPError
      | NotJson \<Rightarrow> Inl JSONDecodeError
      | NestedTooDeep \<Rightarrow> Inl RecursionError
      | Body data \<Rightarrow> parse_reply e data,
      emit [HttpGet q] (s\<lparr>calls := calls s + 1\<rparr>))"

section \<open>main (lines 33-106)\<close>

text \<open>The SELECT of lines 46-58.\<close>

definition missing :: "row \<Rightarrow> bool" where
  "missing r = (latitude r = None \<or> longitude r = None)"

definition select_targets :: "row list \<Rightarrow> row list" where
  "select_targets tbl = sort_key rid (filter missing tbl)"

text \<open>The UPDATE of lines 82-89 on the table.\<close>

definition sql_update :: "env \<Rightarrow> pyfloat \<Rightarrow> pyfloat \<Rightarrow> int \<Rightarrow> row list \<Rightarrow> row list" where
  "sql_update e lat lng i tbl =
     map (\<lambda>r. if rid r = i
               then r\<lparr>latitude := Some lat, longitude := Some lng, updated_at := Some (now e)\<rparr>
               else r) tbl"

text \<open>The progress line of lines 67-68 and 94-95.\<close>

definition progress :: "nat \<Rightarrow> nat \<Rightarrow> run_state \<Rightarrow> run_state" where
  "progress i tot s =
     (if i mod 25 = 0 \<or> i = tot then emit [LogProgress i tot (updated s)] s else s)"

text \<open>Lines 81-92: the result is the exception that leaves the loop body, if any.\<close>

definition write_row :: "env \<Rightarrow> row \<Rightarrow> string \<Rightarrow> coords \<Rightarrow> run_state \<Rightarrow> pyexc option \<times> run_state" where
  "write_row e r q c s =
     (case c of
        (Some lat, Some lng) \<Rightarrow>
          (let s1 = emit [SqlUpdate lat lng (rid r)] s in
           if update_fails e (rid r) then (Some DatabaseError, s1)
           else (None, s1\<lparr>txn := sql_update e lat lng (rid r) (txn s1), updated := updated s1 + 1\<rparr>))
      | _ \<Rightarrow> (None, emit [LogNoMatch q] s))"

text \<open>Lines 81-97.\<close>

definition finish_row :: "env \<Rightarrow> nat \<Rightarrow> nat \<Rightarrow> row \<Rightarrow> string \<Rightarrow> coords \<Rightarrow> run_state \<Rightarrow> pyexc option \<times> run_state" where
  "finish_row e tot i r q c s =
     (case write_row e r q c s of
        (Some x, s1) \<Rightarrow> (Some x, s1)
      | (None, s1) \<Rightarrow> (None, emit [Sleep 150] (progress i tot s1)))"

text \<open>
  One iteration of the loop (lines 65-97). A handler of a try statement does not guard
  the other handlers: what the second geocode call (line 76) raises leaves the body.
\<close>

definition process_row :: "env \<Rightarrow> nat \<Rightarrow> nat \<Rightarrow> row \<Rightarrow> run_state \<Rightarrow> pyexc option \<times> run_state" where
  "process_row e tot i r s =
     (let q = make_query r in
      if q = [] then (None, progress i tot s)
      else
        (case geocode e q s of
           (Inr c, s1) \<Rightarrow> finish_row e tot i r q c s1
         | (Inl x, s1) \<Rightarrow>
             if is_RuntimeError x then
               (case geocode e q (emit [LogQuota i tot x, Sleep 10000] s1) of
                  (Inr c, s2) \<Rightarrow> finish_row e tot i r q c s2
                | (Inl y, s2) \<Rightarrow> (Some y, s2))
             else finish_row e tot i r q (None, None) (emit [LogError q x] s1)))"

text \<open>\<open>for i, row in enumerate(rows, 1)\<close>.\<close>

fun process_rows :: "env \<Rightarrow> nat \<Rightarrow> nat \<Rightarrow> row list \<Rightarrow> run_state \<Rightarrow> pyexc option \<times> run_state" where
  "process_rows e tot i [] s = (None, s)"
| "process_rows e tot i (r # rs) s =
     (case process_row e tot i r s of
        (Some x, s1) \<Rightarrow> (Some x, s1)
      | (None, s1) \<Rightarrow> process_rows e tot (i + 1) rs s1)"

text \<open>The body of the try statement (lines 43-100).\<close>

definition try_block :: "env \<Rightarrow> run_state \<Rightarrow> pyexc option \<times> run_state" where
  "try_block e s =
     (let s1 = emit [LogLoading, SqlSelect] s in
      if select_fails e then (Some DatabaseError, s1)
      else
        (let rows = select_targets (txn s1);
             tot = length rows;
             s2 = (emit [LogRowsToProcess tot] s1)\<lparr>updated := 0\<rparr>
         in case process_rows e tot 1 rows s2 of
              (Some x, s3) \<Rightarrow> (Some x, s3)
            | (None, s3) \<Rightarrow>
                if commit_fails e then (Some DatabaseError, emit [Commit] s3)
                else (None, emit [Commit, LogDone (updated s3) tot] (s3\<lparr>db := txn s3\<rparr>))))"

text \<open>\<open>PG_DSN.split('@')[-1].split('/')[0]\<close>.\<close>

definition dsn_host :: "string \<Rightarrow> string" where
  "dsn_host d = takeWhile (\<lambda>c. c \<noteq> CHR ''/'') (rev (takeWhile (\<lambda>c. c \<noteq> CHR ''@'') (rev d)))"

definition init_state :: "row list \<Rightarrow> run_state" where
  "init_state tbl = \<lparr>db = tbl, txn = tbl, calls = 0, updated = 0, trace = []\<rparr>"

definition main :: "env \<Rightarrow> row list \<Rightarrow> outcome \<times> run_state" where
  "main e tbl =
     (let s0 = init_state tbl in
      if \<not> present (PG_DSN e) \<or> \<not> present (GOOGLE_KEY e) then (SystemExit, s0)
      else
        (let s1 = emit [LogStarting, LogDsnHost (dsn_host (the (PG_DSN e)))] s0 in
         if connect_fails e then (Raised DatabaseError, s1)
         else
           (case try_block e (emit [Connect] s1) of
              (Some x, s2) \<Rightarrow> (Raised x, emit [Rollback, LogFatal x, Close] (s2\<lparr>txn := db s2\<rparr>))
            | (None, s2) \<Rightarrow> (Returned, emit [Close] s2))))"

section \<open>Notions the properties are stated with\<close>

text \<open>The progress line an iteration prints, if any (lines 67-68 and 94-95).\<close>

definition progress_line :: "nat \<Rightarrow> nat \<Rightarrow> nat \<Rightarrow> event list" where
  "progress_line i tot u = (if i mod 25 = 0 \<or> i = tot then [LogProgress i tot u] else [])"

text \<open>
  How a run may change a table: a row is as before, or it is one of the rows with an
  identifier of ids and holds both coordinates now.
\<close>

definition touched :: "int set \<Rightarrow> row \<Rightarrow> row \<Rightarrow> bool" where
  "touched ids a b =
     (b = a \<or> (rid a \<in> ids \<and> rid b = rid a \<and> latitude b \<noteq> None \<and> longitude b \<noteq> None))"

definition changed_only :: "int set \<Rightarrow> row list \<Rightarrow> row list \<Rightarrow> bool" where
  "changed_only ids t t' = list_all2 (touched ids) t t'"

fun finite_float :: "pyfloat \<Rightarrow> bool" where
  "finite_float (Fin x) = True"
| "finite_float f = False"

text \<open>A row b that grew out of a row a kept both coordinate columns or holds both.\<close>

definition coords_paired :: "row \<Rightarrow> row \<Rightarrow> bool" where
  "coords_paired a b =
     ((latitude b = latitude a \<and> longitude b = longitude a)
      \<or> (latitude b \<noteq> None \<and> longitude b \<noteq> None))"

text \<open>Every UPDATE the trace records has left the rows of its identifier with both coordinates.\<close>

definition written :: "run_state \<Rightarrow> bool" where
  "written s = (\<forall>x y k. SqlUpdate x y k \<in> set (trace s) \<longrightarrow>
     (\<forall>r\<in>set (txn s). rid r = k \<longrightarrow> latitude r \<noteq> None \<and> longitude r \<noteq> None))"

section \<open>Example inputs\<close>

definition maple :: row where
  "maple = \<lparr>rid = 7, name = Some ''Maple Court'', address = Some ''10 Elm St'',
     city = Some ''Springfield'', state = None, zip_code = Some ''00001'',
     latitude = None, longitude = None, updated_at = None\<rparr>"

text \<open>A row that holds a latitude and no longitude.\<close>

definition oak :: row where
  "oak = \<lparr>rid = 3, name = Some ''Oak House'', address = None, city = Some ''Blacksburg'',
     state = Some ''VA'', zip_code = None, latitude = Some (Fin 1), longitude = None,
     updated_at = None\<rparr>"

text \<open>A row with no text to build a query from.\<close>

definition blank :: row where
  "blank = \<lparr>rid = 1, name = None, address = Some [], city = None, state = None,
     zip_code = None, latitude = None, longitude = None, updated_at = None\<rparr>"

definition ok_body :: json where
  "ok_body = JObj [(''status'', JStr ''OK''),
     (''results'', JArr [JObj [(''geometry'', JObj [(''location'',
        JObj [(''lat'', JFloat (Fin (401 / 10))), (''lng'', JFloat (Fin (- 752 / 10)))])])]])]"

definition quota_body :: json where
  "quota_body = JObj [(''status'', JStr ''OVER_QUERY_LIMIT'')]"

definition zero_body :: json where
  "zero_body = JObj [(''status'', JStr ''ZERO_RESULTS''), (''results'', JArr [])]"

text \<open>The body \<open>{"status": "OK", "results": [{"geometry": {"location": {"lat": 1e999, "lng": 0.0}}}]}\<close>.\<close>

definition inf_body :: json where
  "inf_body = JObj [(''status'', JStr ''OK''),
     (''results'', JArr [JObj [(''geometry'', JObj [(''location'',
        JObj [(''lat'', JFloat PosInf), (''lng'', JFloat (Fin 0))])])]])]"

text \<open>A run where nothing fails and the provider finds every address.\<close>

definition env0 :: env where
  "env0 = \<lparr>PG_DSN = Some ''postgresql://u:p@db.example:5432/app'', GOOGLE_KEY = Some ''k'',
     http = (\<lambda>k q. Body ok_body), int_to_float = (\<lambda>n. Some (Fin (of_int n))),
     str_to_float = (\<lambda>s. None), connect_fails = False, select_fails = False,
     update_fails = (\<lambda>i. False), commit_fails = False, now = 1000\<rparr>"

text \<open>A provider that answers the first request and is over its quota from then on.\<close>

definition env_quota :: env where
  "env_quota = env0\<lparr>http := \<lambda>k q. if k = 0 then Body ok_body else Body quota_body\<rparr>"

text \<open>A store that rejects the UPDATE of row 7.\<close>

definition env_store :: env where
  "env_store = env0\<lparr>update_fails := \<lambda>i. i = 7\<rparr>"

text \<open>A provider whose connection drops on every request.\<close>

definition env_down :: env where
  "env_down = env0\<lparr>http := \<lambda>k q. ConnectionFailed\<rparr>"

text \<open>A provider whose every body is nested beyond the recursion limit.\<close>

definition env_deep :: env where
  "env_deep = env0\<lparr>http := \<lambda>k q. NestedTooDeep\<rparr>"

text \<open>A provider whose first body is nested too deeply and that answers from then on.\<close>

definition env_deep_once :: env where
  "env_deep_once = env0\<lparr>http := \<lambda>k q. if k = 0 then NestedTooDeep else Body ok_body\<rparr>"

text \<open>A provider that is over its quota on the first request and answers from then on.\<close>

definition env_retry :: env where
  "env_retry = env0\<lparr>http := \<lambda>k q. if k = 0 then Body quota_body else Body ok_body\<rparr>"

definition env_inf :: env where
  "env_inf = env0\<lparr>http := \<lambda>k q. Body inf_body\<rparr>"

text \<open>Two runs over a table of two rows: the provider finds the first address only.\<close>

definition env_first :: env where
  "env_first = env0\<lparr>http := \<lambda>k q. if k = 0 then Body ok_body else Body zero_body\<rparr>"

lemmas run_defs = main_def try_block_def process_row_def finish_row_def write_row_def
  geocode_def parse_reply_def extract_location_def bind_exc_def progress_def emit_def
  init_state_def select_targets_def missing_def sql_update_def make_query_def
  NAME_COL_def ADDR_COLS_def row_get_def present_def dsn_host_def

lemmas ex_defs = env0_def env_quota_def env_store_def env_down_def env_inf_def env_deep_def env_deep_once_def
  env_retry_def env_first_def ok_body_def
  quota_body_def zero_body_def inf_body_def oak_def maple_def blank_def

section \<open>Basic facts\<close>

lemma emit_fields [simp]:
  "db (emit es s) = db s" "txn (emit es s) = txn s" "calls (emit es s) = calls s"
  "updated (emit es s) = updated s" "trace (emit es s) = trace s @ es"
  by (simp_all add: emit_def)

lemma geocode_state [simp]:
  "snd (geocode e q s) = emit [HttpGet q] (s\<lparr>calls := calls s + 1\<rparr>)"
  by (simp add: geocode_def)

lemma geocode_split:
  "geocode e q s = (fst (geocode e q s), emit [HttpGet q] (s\<lparr>calls := calls s + 1\<rparr>))"
  by (simp add: geocode_def)

lemma progress_emit: "progress i tot s = emit (progress_line i tot (updated s)) s"
  by (simp add: progress_def progress_line_def emit_def)







lemma extract_location_pair:
  "extract_location e data = Inr (a, b) \<Longrightarrow> a \<noteq> None \<and> b \<noteq> None"
  unfolding extract_location_def bind_exc_def
  by (auto split: sum.splits)



lemma finish_row_write:
  "\<not> update_fails e (rid r) \<Longrightarrow>
   finish_row e tot i r q (Some lat, Some lng) s =
     (None, (emit ([SqlUpdate lat lng (rid r)] @ progress_line i tot (updated s + 1) @ [Sleep 150]) s)
        \<lparr>txn := sql_update e lat lng (rid r) (txn s), updated := updated s + 1\<rparr>)"
  by (simp add: finish_row_def write_row_def progress_def progress_line_def emit_def Let_def)

lemma finish_row_fail:
  "update_fails e (rid r) \<Longrightarrow>
   finish_row e tot i r q (Some lat, Some lng) s =
     (Some DatabaseError, emit [SqlUpdate lat lng (rid r)] s)"
  by (simp add: finish_row_def write_row_def Let_def)

lemma finish_row_nomatch:
  "a = None \<or> b = None \<Longrightarrow>
   finish_row e tot i r q (a, b) s =
     (None, emit ([LogNoMatch q] @ progress_line i tot (updated s) @ [Sleep 150]) s)"
  by (auto simp: finish_row_def write_row_def progress_def progress_line_def emit_def
      split: option.splits)

lemma progress_line_no_Sleep: "Sleep n \<notin> set (progress_line i tot u)"
  by (simp add: progress_line_def)

lemma finish_row_paced:
  assumes "finish_row e tot i r q c s = (None, s')"
  shows "\<exists>mid. trace s' = trace s @ mid @ [Sleep 150] \<and> Sleep 150 \<notin> set mid"
proof (cases c)
  case (Pair a b)
  show ?thesis
  proof (cases "a = None \<or> b = None")
    case True
    then have "s' = emit ([LogNoMatch q] @ progress_line i tot (updated s) @ [Sleep 150]) s"
      using assms Pair finish_row_nomatch [of a b e tot i r q s] by simp
    then have "trace s' = trace s @ ([LogNoMatch q] @ progress_line i tot (updated s)) @ [Sleep 150]"
      by simp
    moreover have "Sleep 150 \<notin> set ([LogNoMatch q] @ progress_line i tot (updated s))"
      by (simp add: progress_line_no_Sleep)
    ultimately show ?thesis by blast
  next
    case False
    then obtain lat lng where c: "c = (Some lat, Some lng)"
      using Pair by auto
    have nf: "\<not> update_fails e (rid r)"
      using assms c finish_row_fail [of e r tot i q lat lng s] by auto
    have "trace s' = trace s @ ([SqlUpdate lat lng (rid r)] @ progress_line i tot (updated s + 1)) @ [Sleep 150]"
      using assms c finish_row_write [OF nf, of tot i q lat lng s] by auto
    moreover have "Sleep 150 \<notin> set ([SqlUpdate lat lng (rid r)] @ progress_line i tot (updated s + 1))"
      by (simp add: progress_line_no_Sleep)
    ultimately show ?thesis by blast
  qed
qed

section \<open>What a run changes in the store\<close>

lemma changed_only_refl: "changed_only ids t t"
  by (simp add: changed_only_def touched_def list_all2_same)

lemma changed_only_trans:
  "changed_only ids t t' \<Longrightarrow> changed_only ids t' t'' \<Longrightarrow> changed_only ids t t''"
  unfolding changed_only_def
  by (erule (1) list_all2_trans [rotated]) (auto simp: touched_def)

lemma changed_only_mono: "ids \<subseteq> ids' \<Longrightarrow> changed_only ids t t' \<Longrightarrow> changed_only ids' t t'"
  unfolding changed_only_def
  by (erule list_all2_mono) (auto simp: touched_def)

lemma changed_only_sql_update: "changed_only {i} t (sql_update e lat lng i t)"
  by (simp add: changed_only_def sql_update_def list_all2_map2 touched_def list_all2_same)

lemma finish_row_frame:
  assumes "finish_row e tot i r q c s = (res, s')"
  shows "db s' = db s \<and> changed_only {rid r} (txn s) (txn s')"
proof (cases c)
  case (Pair a b)
  show ?thesis
  proof (cases "a = None \<or> b = None")
    case True
    then show ?thesis
      using assms Pair finish_row_nomatch [of a b e tot i r q s]
      by (auto simp: changed_only_refl)
  next
    case False
    then obtain lat lng where c: "c = (Some lat, Some lng)"
      using Pair by auto
    show ?thesis
    proof (cases "update_fails e (rid r)")
      case True
      then show ?thesis
        using assms c finish_row_fail [of e r tot i q lat lng s]
        by (auto simp: changed_only_refl)
    next
      case False
      then show ?thesis
        using assms c finish_row_write [OF False, of tot i q lat lng s]
        by (auto simp: changed_only_sql_update)
    qed
  qed
qed

lemma process_row_frame:
  assumes "process_row e tot i r s = (res, s')"
  shows "db s' = db s \<and> changed_only {rid r} (txn s) (txn s')"
proof (cases "make_query r = []")
  case True
  then show ?thesis
    using assms by (auto simp: process_row_def progress_emit changed_only_refl)
next
  case False
  let ?q = "make_query r"
  let ?s1 = "emit [HttpGet ?q] (s\<lparr>calls := calls s + 1\<rparr>)"
  have g1: "geocode e ?q s = (fst (geocode e ?q s), ?s1)"
    by (rule geocode_split)
  show ?thesis
  proof (cases "fst (geocode e ?q s)")
    case (Inr c)
    then have "finish_row e tot i r ?q c ?s1 = (res, s')"
      using assms False g1 by (simp add: process_row_def Let_def)
    from finish_row_frame [OF this] show ?thesis by simp
  next
    case (Inl x)
    show ?thesis
    proof (cases "is_RuntimeError x")
      case False
      then have "finish_row e tot i r ?q (None, None) (emit [LogError ?q x] ?s1) = (res, s')"
        using assms \<open>make_query r \<noteq> []\<close> g1 Inl by (simp add: process_row_def Let_def)
      from finish_row_frame [OF this] show ?thesis by simp
    next
      case True
      let ?s2 = "emit [LogQuota i tot x, Sleep 10000] ?s1"
      let ?s3 = "emit [HttpGet ?q] (?s2\<lparr>calls := calls ?s2 + 1\<rparr>)"
      have g2: "geocode e ?q ?s2 = (fst (geocode e ?q ?s2), ?s3)"
        by (rule geocode_split)
      show ?thesis
      proof (cases "fst (geocode e ?q ?s2)")
        case (Inl y)
        then have "s' = ?s3"
          using assms \<open>make_query r \<noteq> []\<close> g1 g2 \<open>fst (geocode e ?q s) = Inl x\<close> True
          by (simp add: process_row_def Let_def)
        then show ?thesis by (simp add: changed_only_refl)
      next
        case (Inr c)
        then have "finish_row e tot i r ?q c ?s3 = (res, s')"
          using assms \<open>make_query r \<noteq> []\<close> g1 g2 \<open>fst (geocode e ?q s) = Inl x\<close> True
          by (simp add: process_row_def Let_def)
        from finish_row_frame [OF this] show ?thesis by simp
      qed
    qed
  qed
qed

lemma process_rows_frame:
  "process_rows e tot i rows s = (res, s') \<Longrightarrow>
   db s' = db s \<and> changed_only (rid ` set rows) (txn s) (txn s')"
proof (induction rows arbitrary: i s)
  case Nil
  then show ?case by (simp add: changed_only_refl)
next
  case (Cons r rows)
  obtain res1 s1 where p: "process_row e tot i r s = (res1, s1)"
    by (cases "process_row e tot i r s")
  from process_row_frame [OF p]
  have f1: "db s1 = db s" "changed_only (rid ` set (r # rows)) (txn s) (txn s1)"
    by (auto intro: changed_only_mono [rotated])
  show ?case
  proof (cases res1)
    case (Some x)
    then show ?thesis using Cons.prems p f1 by simp
  next
    case None
    then have "process_rows e tot (i + 1) rows s1 = (res, s')"
      using Cons.prems p by simp
    from Cons.IH [OF this]
    have "db s' = db s1" "changed_only (rid ` set (r # rows)) (txn s1) (txn s')"
      by (auto intro: changed_only_mono [rotated])
    then show ?thesis using f1 by (auto intro: changed_only_trans)
  qed
qed

lemma try_block_frame:
  assumes "try_block e s = (res, s')"
  shows "(res \<noteq> None \<longrightarrow> db s' = db s)
       \<and> (res = None \<longrightarrow> db s' = txn s')
       \<and> changed_only (rid ` set (select_targets (txn s))) (txn s) (txn s')"
proof (cases "select_fails e")
  case True
  then show ?thesis
    using assms by (auto simp: try_block_def Let_def changed_only_refl)
next
  case False
  let ?rows = "select_targets (txn s)"
  let ?s2 = "(emit [LogRowsToProcess (length ?rows)] (emit [LogLoading, SqlSelect] s))\<lparr>updated := 0\<rparr>"
  obtain res3 s3 where p: "process_rows e (length ?rows) 1 ?rows ?s2 = (res3, s3)"
    by (cases "process_rows e (length ?rows) 1 ?rows ?s2")
  from process_rows_frame [OF p]
  have f: "db s3 = db s" "changed_only (rid ` set ?rows) (txn s) (txn s3)"
    by simp_all
  show ?thesis
    using assms False p f
    by (cases res3) (auto simp: try_block_def Let_def split: if_splits)
qed

lemma try_block_commit:
  assumes "try_block e s = (None, s')"
  shows "\<exists>pre u n. trace s' = pre @ [Commit, LogDone u n]"
proof -
  let ?rows = "select_targets (txn s)"
  let ?s2 = "(emit [LogRowsToProcess (length ?rows)] (emit [LogLoading, SqlSelect] s))\<lparr>updated := 0\<rparr>"
  obtain res3 s3 where p: "process_rows e (length ?rows) 1 ?rows ?s2 = (res3, s3)"
    by (cases "process_rows e (length ?rows) 1 ?rows ?s2")
  have "s' = emit [Commit, LogDone (updated s3) (length ?rows)] (s3\<lparr>db := txn s3\<rparr>)"
    using assms p by (cases res3) (auto simp: try_block_def Let_def split: if_splits)
  then show ?thesis by simp
qed

lemma changed_only_paired: "changed_only ids t t' \<Longrightarrow> list_all2 coords_paired t t'"
  unfolding changed_only_def
  by (erule list_all2_mono) (auto simp: touched_def coords_paired_def)

lemma parse_reply_pair:
  "parse_reply e data = Inr (a, b) \<Longrightarrow> (a = None \<and> b = None) \<or> (a \<noteq> None \<and> b \<noteq> None)"
  unfolding parse_reply_def bind_exc_def
  by (auto split: sum.splits if_splits dest: extract_location_pair)

lemma geocode_pair:
  "fst (geocode e q s) = Inr (a, b) \<Longrightarrow> (a = None \<and> b = None) \<or> (a \<noteq> None \<and> b \<noteq> None)"
  by (auto simp: geocode_def split: http_reply.splits dest: parse_reply_pair)

lemma main_frame:
  assumes "main e tbl = (out, s)"
  shows "changed_only (rid ` set (select_targets tbl)) tbl (db s)"
proof (cases "\<not> present (PG_DSN e) \<or> \<not> present (GOOGLE_KEY e) \<or> connect_fails e")
  case True
  then have "db s = tbl"
    using assms by (auto simp: main_def Let_def init_state_def split: if_splits)
  then show ?thesis by (simp add: changed_only_refl)
next
  case False
  let ?s1 = "emit [Connect] (emit [LogStarting, LogDsnHost (dsn_host (the (PG_DSN e)))] (init_state tbl))"
  obtain res s2 where t: "try_block e ?s1 = (res, s2)"
    by (cases "try_block e ?s1")
  have d: "db ?s1 = tbl" "txn ?s1 = tbl"
    by (simp_all add: init_state_def)
  from try_block_frame [OF t] d
  have f: "res \<noteq> None \<longrightarrow> db s2 = tbl" "res = None \<longrightarrow> db s2 = txn s2"
    "changed_only (rid ` set (select_targets tbl)) tbl (txn s2)"
    by simp_all
  show ?thesis
  proof (cases res)
    case None
    then have "s = emit [Close] s2"
      using assms False t by (simp add: main_def Let_def)
    then show ?thesis using f None by simp
  next
    case (Some x)
    then have "s = emit [Rollback, LogFatal x, Close] (s2\<lparr>txn := db s2\<rparr>)"
      using assms False t by (simp add: main_def Let_def)
    then show ?thesis using f Some by (simp add: emit_def changed_only_refl)
  qed
qed

section \<open>The statements a run has issued\<close>

lemma written_emit:
  "written s \<Longrightarrow> \<forall>x y k. SqlUpdate x y k \<notin> set es \<Longrightarrow> written (emit es (s\<lparr>calls := n\<rparr>))"
  by (simp add: written_def)

lemma written_emit':
  "written s \<Longrightarrow> \<forall>x y k. SqlUpdate x y k \<notin> set es \<Longrightarrow> written (emit es s)"
  by (simp add: written_def)

lemma progress_line_no_SqlUpdate: "SqlUpdate x y k \<notin> set (progress_line i tot u)"
  by (simp add: progress_line_def)

lemma sql_update_rows:
  assumes "r' \<in> set (sql_update e x y k t)"
  shows "(rid r' = k \<and> latitude r' = Some x \<and> longitude r' = Some y) \<or> (r' \<in> set t \<and> rid r' \<noteq> k)"
proof -
  from assms have "r' \<in> (\<lambda>r. if rid r = k
        then r\<lparr>latitude := Some x, longitude := Some y, updated_at := Some (now e)\<rparr> else r) ` set t"
    by (simp add: sql_update_def)
  then obtain r0 where "r0 \<in> set t" and "r' = (if rid r0 = k
        then r0\<lparr>latitude := Some x, longitude := Some y, updated_at := Some (now e)\<rparr> else r0)"
    by blast
  then show ?thesis
    by (cases "rid r0 = k") simp_all
qed

lemma written_sql_update:
  assumes "written s"
  shows "written ((emit ([SqlUpdate x y k] @ progress_line i tot u @ [Sleep 150]) s)
     \<lparr>txn := sql_update e x y k (txn s), updated := m\<rparr>)"
  unfolding written_def
proof (intro allI impI ballI)
  fix x' y' k' r'
  let ?s' = "(emit ([SqlUpdate x y k] @ progress_line i tot u @ [Sleep 150]) s)
     \<lparr>txn := sql_update e x y k (txn s), updated := m\<rparr>"
  assume ev: "SqlUpdate x' y' k' \<in> set (trace ?s')"
    and mem: "r' \<in> set (txn ?s')" and id: "rid r' = k'"
  from mem have "r' \<in> set (sql_update e x y k (txn s))"
    by simp
  from sql_update_rows [OF this]
  show "latitude r' \<noteq> None \<and> longitude r' \<noteq> None"
  proof
    assume "rid r' = k \<and> latitude r' = Some x \<and> longitude r' = Some y"
    then show ?thesis by simp
  next
    assume old: "r' \<in> set (txn s) \<and> rid r' \<noteq> k"
    then have "SqlUpdate x' y' k' \<in> set (trace s)"
      using ev id by (auto simp: progress_line_no_SqlUpdate)
    then show ?thesis
      using assms old id unfolding written_def by blast
  qed
qed

lemma finish_row_written:
  assumes "finish_row e tot i r q c s = (None, s')" and "written s"
  shows "written s'"
proof (cases c)
  case (Pair a b)
  show ?thesis
  proof (cases "a = None \<or> b = None")
    case True
    then have "s' = emit ([LogNoMatch q] @ progress_line i tot (updated s) @ [Sleep 150]) s"
      using assms(1) Pair finish_row_nomatch [of a b e tot i r q s] by simp
    then show ?thesis
      using assms(2) by (simp add: written_emit' progress_line_no_SqlUpdate)
  next
    case False
    then obtain lat lng where c: "c = (Some lat, Some lng)"
      using Pair by auto
    have nf: "\<not> update_fails e (rid r)"
      using assms(1) c finish_row_fail [of e r tot i q lat lng s] by auto
    have "s' = (emit ([SqlUpdate lat lng (rid r)] @ progress_line i tot (updated s + 1) @ [Sleep 150]) s)
        \<lparr>txn := sql_update e lat lng (rid r) (txn s), updated := updated s + 1\<rparr>"
      using assms(1) c finish_row_write [OF nf, of tot i q lat lng s] by simp
    then show ?thesis
      using written_sql_update [OF assms(2)] by simp
  qed
qed

lemma process_row_cases:
  assumes "process_row e tot i r s = (res, s')"
  shows "(make_query r = [] \<and> res = None \<and> s' = emit (progress_line i tot (updated s)) s)
     \<or> (\<exists>c es n. finish_row e tot i r (make_query r) c (emit es (s\<lparr>calls := n\<rparr>)) = (res, s')
           \<and> (\<forall>x y k. SqlUpdate x y k \<notin> set es))
     \<or> res \<noteq> None"
proof (cases "make_query r = []")
  case True
  then show ?thesis
    using assms by (auto simp: process_row_def progress_emit)
next
  case False
  let ?q = "make_query r"
  let ?s1 = "emit [HttpGet ?q] (s\<lparr>calls := calls s + 1\<rparr>)"
  have g1: "geocode e ?q s = (fst (geocode e ?q s), ?s1)"
    by (rule geocode_split)
  show ?thesis
  proof (cases "fst (geocode e ?q s)")
    case (Inr c)
    then have "finish_row e tot i r ?q c ?s1 = (res, s')"
      using assms False g1 by (simp add: process_row_def Let_def)
    moreover have "\<forall>x y k. SqlUpdate x y k \<notin> set [HttpGet ?q]"
      by simp
    ultimately show ?thesis by blast
  next
    case (Inl x)
    show ?thesis
    proof (cases "is_RuntimeError x")
      case False
      then have "finish_row e tot i r ?q (None, None) (emit [LogError ?q x] ?s1) = (res, s')"
        using assms \<open>make_query r \<noteq> []\<close> g1 Inl by (simp add: process_row_def Let_def)
      moreover have "emit [LogError ?q x] ?s1 = emit [HttpGet ?q, LogError ?q x] (s\<lparr>calls := calls s + 1\<rparr>)"
        by (simp add: emit_def)
      moreover have "\<forall>a b k. SqlUpdate a b k \<notin> set [HttpGet ?q, LogError ?q x]"
        by simp
      ultimately show ?thesis by metis
    next
      case True
      let ?s2 = "emit [LogQuota i tot x, Sleep 10000] ?s1"
      let ?s3 = "emit [HttpGet ?q] (?s2\<lparr>calls := calls ?s2 + 1\<rparr>)"
      have g2: "geocode e ?q ?s2 = (fst (geocode e ?q ?s2), ?s3)"
        by (rule geocode_split)
      show ?thesis
      proof (cases "fst (geocode e ?q ?s2)")
        case (Inl y)
        then have "res = Some y"
          using assms \<open>make_query r \<noteq> []\<close> g1 g2 \<open>fst (geocode e ?q s) = Inl x\<close> True
          by (simp add: process_row_def Let_def)
        then show ?thesis by simp
      next
        case (Inr c)
        then have "finish_row e tot i r ?q c ?s3 = (res, s')"
          using assms \<open>make_query r \<noteq> []\<close> g1 g2 \<open>fst (geocode e ?q s) = Inl x\<close> True
          by (simp add: process_row_def Let_def)
        moreover have "?s3 = emit [HttpGet ?q, LogQuota i tot x, Sleep 10000, HttpGet ?q]
            (s\<lparr>calls := calls s + 1 + 1\<rparr>)"
          by (simp add: emit_def)
        moreover have "\<forall>a b k. SqlUpdate a b k \<notin> set [HttpGet ?q, LogQuota i tot x, Sleep 10000, HttpGet ?q]"
          by simp
        ultimately show ?thesis by metis
      qed
    qed
  qed
qed

lemma process_row_written:
  assumes "process_row e tot i r s = (None, s')" and "written s"
  shows "written s'"
proof -
  from process_row_cases [OF assms(1)]
  consider "s' = emit (progress_line i tot (updated s)) s"
    | c es n where "finish_row e tot i r (make_query r) c (emit es (s\<lparr>calls := n\<rparr>)) = (None, s')"
        "\<forall>x y k. SqlUpdate x y k \<notin> set es"
    by blast
  then show ?thesis
  proof cases
    case 1
    then show ?thesis
      using assms(2) by (simp add: written_emit' progress_line_no_SqlUpdate)
  next
    case 2
    from finish_row_written [OF 2(1) written_emit [OF assms(2) 2(2)]]
    show ?thesis .
  qed
qed

lemma process_rows_written:
  "process_rows e tot i rows s = (None, s') \<Longrightarrow> written s \<Longrightarrow> written s'"
proof (induction rows arbitrary: i s)
  case Nil
  then show ?case by simp
next
  case (Cons r rows)
  obtain res1 s1 where p: "process_row e tot i r s = (res1, s1)"
    by (cases "process_row e tot i r s")
  show ?case
  proof (cases res1)
    case (Some x)
    then show ?thesis using Cons.prems p by simp
  next
    case None
    then have "process_rows e tot (i + 1) rows s1 = (None, s')"
      using Cons.prems p by simp
    moreover have "written s1"
      using process_row_written p None Cons.prems(2) by blast
    ultimately show ?thesis
      by (rule Cons.IH)
  qed
qed

lemma try_block_written:
  assumes "try_block e s = (None, s')" and "written s"
  shows "\<forall>x y k. SqlUpdate x y k \<in> set (trace s') \<longrightarrow>
     (\<forall>r\<in>set (db s'). rid r = k \<longrightarrow> latitude r \<noteq> None \<and> longitude r \<noteq> None)"
proof -
  let ?rows = "select_targets (txn s)"
  let ?s2 = "(emit [LogRowsToProcess (length ?rows)] (emit [LogLoading, SqlSelect] s))\<lparr>updated := 0\<rparr>"
  obtain res3 s3 where p: "process_rows e (length ?rows) 1 ?rows ?s2 = (res3, s3)"
    by (cases "process_rows e (length ?rows) 1 ?rows ?s2")
  have r3: "res3 = None"
    and s': "s' = emit [Commit, LogDone (updated s3) (length ?rows)] (s3\<lparr>db := txn s3\<rparr>)"
    using assms(1) p by (cases res3; auto simp: try_block_def Let_def split: if_splits)+
  have "written ?s2"
    using assms(2) by (simp add: written_def)
  then have "written s3"
    using process_rows_written p r3 by blast
  then show ?thesis
    unfolding s' written_def by simp
qed

lemma main_written:
  assumes "main e tbl = (Returned, s)"
  shows "\<forall>x y k. SqlUpdate x y k \<in> set (trace s) \<longrightarrow>
     (\<forall>r\<in>set (db s). rid r = k \<longrightarrow> latitude r \<noteq> None \<and> longitude r \<noteq> None)"
proof -
  let ?s1 = "emit [Connect] (emit [LogStarting, LogDsnHost (dsn_host (the (PG_DSN e)))] (init_state tbl))"
  obtain res s2 where t: "try_block e ?s1 = (res, s2)"
    by (cases "try_block e ?s1")
  have ok: "present (PG_DSN e) \<and> present (GOOGLE_KEY e) \<and> \<not> connect_fails e"
    using assms by (auto simp: main_def Let_def split: if_splits)
  have "res = None" and s: "s = emit [Close] s2"
    using assms ok t by (cases res; simp add: main_def Let_def)+
  have "written ?s1"
    by (simp add: written_def init_state_def)
  from try_block_written [OF t [unfolded \<open>res = None\<close>] this]
  show ?thesis
    unfolding s by simp
qed

section \<open>The rows a run selects\<close>

lemma select_targets_set:
  "set (select_targets t) = {r \<in> set t. latitude r = None \<or> longitude r = None}"
  by (auto simp: select_targets_def missing_def)

lemma select_targets_sorted: "sorted (map rid (select_targets t))"
  by (simp add: select_targets_def)

lemma changed_only_length: "changed_only ids t t' \<Longrightarrow> length t' = length t"
  by (simp add: changed_only_def list_all2_lengthD)

lemma changed_only_nth: "changed_only ids t t' \<Longrightarrow> j < length t \<Longrightarrow> touched ids (t ! j) (t' ! j)"
  by (simp add: changed_only_def list_all2_nthD)

lemma changed_only_rid:
  assumes "changed_only ids t t'"
  shows "map rid t' = map rid t"
proof (rule nth_equalityI)
  show "length (map rid t') = length (map rid t)"
    using assms by (simp add: changed_only_length)
next
  fix j assume "j < length (map rid t')"
  then have j: "j < length t"
    using assms by (simp add: changed_only_length)
  from changed_only_nth [OF assms j] have "rid (t' ! j) = rid (t ! j)"
    by (auto simp: touched_def)
  then show "map rid t' ! j = map rid t ! j"
    using j assms by (simp add: changed_only_length)
qed

lemma distinct_rid_unique:
  assumes "distinct (map rid t)" and "r \<in> set t" and "j < length t" and "rid r = rid (t ! j)"
  shows "r = t ! j"
proof -
  obtain m where m: "m < length t" "t ! m = r"
    using assms(2) by (auto simp: in_set_conv_nth)
  then have "map rid t ! m = map rid t ! j"
    using assms(3,4) by simp
  moreover have "m < length (map rid t)" "j < length (map rid t)"
    using m(1) assms(3) by simp_all
  ultimately have "m = j"
    using assms(1) nth_eq_iff_index_eq by blast
  then show ?thesis using m by simp
qed

section \<open>The query builder\<close>

lemma collect_parts_filter:
  "collect_parts r ks parts = parts @ map the (filter present (map (row_get r) ks))"
  by (induction ks arbitrary: parts) (auto simp: present_def split: option.splits)

lemma join_Nil_iff: "\<forall>x\<in>set xs. x \<noteq> [] \<Longrightarrow> join sep xs = [] \<longleftrightarrow> xs = []"
  by (induction sep xs rule: join.induct) auto

lemma make_query_empty_iff:
  "make_query r = [] \<longleftrightarrow> \<not> present (name r) \<and> \<not> present (address r) \<and> \<not> present (city r)
        \<and> \<not> present (state r) \<and> \<not> present (zip_code r)"
proof -
  let ?ps = "map the (filter present [name r, address r, city r, state r, zip_code r])"
  have "\<forall>x\<in>set ?ps. x \<noteq> []"
    by (auto simp: present_def split: option.splits)
  then have "join '', '' ?ps = [] \<longleftrightarrow> ?ps = []"
    by (rule join_Nil_iff)
  moreover have "make_query r = join '', '' ?ps"
    by (simp add: make_query_def collect_parts_filter NAME_COL_def ADDR_COLS_def row_get_def)
  ultimately show ?thesis
    by (auto split: if_splits)
qed

text \<open>
  C4. make\_query is a function of the row alone; it joins with ", ", in the order name,
  address, city, state, zip\_code, exactly the fields that are present and non-empty; it
  is the empty text when none is; and on the row name "Maple Court", address
  "10 Elm St", city "Springfield", no state, zip "00001" it is
  "Maple Court, 10 Elm St, Springfield, 00001".
\<close>

theorem make_query_spec:
  "make_query r =
     join '', '' (map the (filter present [name r, address r, city r, state r, zip_code r]))
   \<and> (\<not> present (name r) \<and> \<not> present (address r) \<and> \<not> present (city r)
        \<and> \<not> present (state r) \<and> \<not> present (zip_code r) \<longrightarrow> make_query r = [])
   \<and> (name r = Some ''Maple Court'' \<and> address r = Some ''10 Elm St''
        \<and> city r = Some ''Springfield'' \<and> state r = None \<and> zip_code r = Some ''00001''
        \<longrightarrow> make_query r = ''Maple Court, 10 Elm St, Springfield, 00001'')"
  by (simp add: make_query_def collect_parts_filter NAME_COL_def ADDR_COLS_def row_get_def
      present_def)

theorem make_query_spec_witness:
  "make_query maple = ''Maple Court, 10 Elm St, Springfield, 00001''"
  using make_query_spec [of maple] by (simp add: maple_def present_def)

section \<open>The geocoder\<close>

text \<open>
  C3. On a parsed reply that is an object: when its status is "OK" and its results array
  is non-empty, with a first result that carries geometry.location.lat and .lng that
  float() converts, geocode returns that pair; when its status is "OVER_QUERY_LIMIT" or
  "RESOURCE_EXHAUSTED", geocode raises the RuntimeError that stands for QuotaExceeded;
  for every other status, and for "OK" with empty results, it returns (None, None) and
  raises nothing.
\<close>

theorem geocode_reply_cases:
  assumes "http e (calls s) q = Body (JObj kvs)"
    and "status = (case map_of kvs ''status'' of None \<Rightarrow> JNull | Some v \<Rightarrow> v)"
    and "results = (case map_of kvs ''results'' of None \<Rightarrow> JNull | Some v \<Rightarrow> v)"
  shows "(status = JStr ''OK'' \<and> results = JArr (hit # rest)
            \<and> py_item hit ''geometry'' = Inr g \<and> py_item g ''location'' = Inr loc
            \<and> py_item loc ''lat'' = Inr latv \<and> py_float e latv = Inr lat
            \<and> py_item loc ''lng'' = Inr lngv \<and> py_float e lngv = Inr lng
          \<longrightarrow> fst (geocode e q s) = Inr (Some lat, Some lng))
       \<and> (status = JStr ''OVER_QUERY_LIMIT'' \<or> status = JStr ''RESOURCE_EXHAUSTED''
          \<longrightarrow> fst (geocode e q s) = Inl (RuntimeError status))
       \<and> (status \<noteq> JStr ''OVER_QUERY_LIMIT'' \<and> status \<noteq> JStr ''RESOURCE_EXHAUSTED''
            \<and> (status \<noteq> JStr ''OK'' \<or> \<not> truthy results)
          \<longrightarrow> fst (geocode e q s) = Inr (None, None))"
  using assms
  by (auto simp: geocode_def parse_reply_def extract_location_def bind_exc_def
      split: option.splits)

theorem geocode_reply_cases_witness:
  "fst (geocode env0 ''Maple Court'' (init_state [])) = Inr (Some (Fin (401 / 10)), Some (Fin (- 752 / 10)))
   \<and> fst (geocode (env0\<lparr>http := \<lambda>k q. Body quota_body\<rparr>) ''Maple Court'' (init_state []))
       = Inl (RuntimeError (JStr ''OVER_QUERY_LIMIT''))
   \<and> fst (geocode (env0\<lparr>http := \<lambda>k q. Body zero_body\<rparr>) ''Maple Court'' (init_state []))
       = Inr (None, None)"
proof -
  have a: "http env0 (calls (init_state [])) ''Maple Court'' = Body (JObj
     [(''status'', JStr ''OK''),
     (''results'', JArr [JObj [(''geometry'', JObj [(''location'',
        JObj [(''lat'', JFloat (Fin (401 / 10))), (''lng'', JFloat (Fin (- 752 / 10)))])])]])])"
    by (simp add: env0_def ok_body_def)
  have b: "http (env0\<lparr>http := \<lambda>k q. Body quota_body\<rparr>) (calls (init_state [])) ''Maple Court''
     = Body (JObj [(''status'', JStr ''OVER_QUERY_LIMIT'')])"
    by (simp add: quota_body_def)
  have c: "http (env0\<lparr>http := \<lambda>k q. Body zero_body\<rparr>) (calls (init_state [])) ''Maple Court''
     = Body (JObj [(''status'', JStr ''ZERO_RESULTS''), (''results'', JArr [])])"
    by (simp add: zero_body_def)
  show ?thesis
    using geocode_reply_cases [OF a refl refl,
        where lat = "Fin (401 / 10)" and lng = "Fin (- 752 / 10)"
          and latv = "JFloat (Fin (401 / 10))" and lngv = "JFloat (Fin (- 752 / 10))"
          and loc = "JObj [(''lat'', JFloat (Fin (401 / 10))), (''lng'', JFloat (Fin (- 752 / 10)))]"
          and g = "JObj [(''location'',
            JObj [(''lat'', JFloat (Fin (401 / 10))), (''lng'', JFloat (Fin (- 752 / 10)))])]"
          and hit = "JObj [(''geometry'', JObj [(''location'',
            JObj [(''lat'', JFloat (Fin (401 / 10))), (''lng'', JFloat (Fin (- 752 / 10)))])])]"
          and rest = "[]"]
      geocode_reply_cases [OF b refl refl]
      geocode_reply_cases [OF c refl refl]
    by simp
qed

section \<open>One iteration of the loop\<close>

text \<open>
  C6. For a row whose query is empty, the iteration sends no request and issues no
  UPDATE: the counter \<open>updated\<close>, the number of requests and the table stay as
  they are, the only effect is the progress line (which counts the row as processed),
  and the loop goes on with the next row.
\<close>

theorem empty_query_skipped:
  assumes "make_query r = []"
  shows "\<exists>s'. process_row e tot i r s = (None, s')
     \<and> process_rows e tot i (r # rs) s = process_rows e tot (i + 1) rs s'
     \<and> calls s' = calls s \<and> updated s' = updated s \<and> txn s' = txn s \<and> db s' = db s
     \<and> trace s' = trace s @ progress_line i tot (updated s)
     \<and> (\<forall>q. HttpGet q \<notin> set (progress_line i tot (updated s)))
     \<and> (\<forall>a b c. SqlUpdate a b c \<notin> set (progress_line i tot (updated s)))"
  using assms by (simp add: process_row_def progress_emit progress_line_def)

theorem empty_query_skipped_witness:
  "make_query blank = []
   \<and> fst (process_row env0 2 1 blank (init_state [blank, maple])) = None
   \<and> calls (snd (process_row env0 2 1 blank (init_state [blank, maple]))) = 0
   \<and> updated (snd (process_row env0 2 1 blank (init_state [blank, maple]))) = 0
   \<and> trace (snd (process_row env0 2 1 blank (init_state [blank, maple]))) = []"
proof -
  have a: "make_query blank = []"
    by (simp add: run_defs ex_defs)
  from empty_query_skipped [OF a, where e = env0 and tot = 2 and i = 1 and rs = "[maple]"
      and s = "init_state [blank, maple]"]
  obtain s' where "process_row env0 2 1 blank (init_state [blank, maple]) = (None, s')"
    and "calls s' = calls (init_state [blank, maple])"
    and "updated s' = updated (init_state [blank, maple])"
    and "trace s' = trace (init_state [blank, maple]) @ progress_line 1 2 (updated (init_state [blank, maple]))"
    by blast
  then show ?thesis
    using a by (simp add: init_state_def progress_line_def)
qed




text \<open>
  C5, as the code has it. An iteration that gets as far as line 97 ends with the pause of
  0.15 s, once: that is every row with a non-empty query whose iteration raises nothing
  (updated, no match, first call failed), also after the 10 s pause of a quota retry.
  A row with an empty query leaves the iteration at line 69 and only prints its
  progress line.
\<close>

theorem pacing_after_geocoded_row:
  assumes "process_row e tot i r s = (None, s')"
  shows "(make_query r \<noteq> [] \<longrightarrow>
            (\<exists>mid. trace s' = trace s @ mid @ [Sleep 150] \<and> Sleep 150 \<notin> set mid))
       \<and> (make_query r = [] \<longrightarrow> trace s' = trace s @ progress_line i tot (updated s))"
proof (cases "make_query r = []")
  case True
  then show ?thesis
    using assms by (auto simp: process_row_def progress_emit)
next
  case False
  let ?q = "make_query r"
  let ?s1 = "emit [HttpGet ?q] (s\<lparr>calls := calls s + 1\<rparr>)"
  have g1: "geocode e ?q s = (fst (geocode e ?q s), ?s1)"
    by (rule geocode_split)
  have "\<exists>mid. trace s' = trace s @ mid @ [Sleep 150] \<and> Sleep 150 \<notin> set mid"
  proof (cases "fst (geocode e ?q s)")
    case (Inr c)
    then have "finish_row e tot i r ?q c ?s1 = (None, s')"
      using assms False g1 by (simp add: process_row_def Let_def)
    from finish_row_paced [OF this]
    obtain mid where "trace s' = trace ?s1 @ mid @ [Sleep 150]" "Sleep 150 \<notin> set mid"
      by blast
    then have "trace s' = trace s @ (HttpGet ?q # mid) @ [Sleep 150] \<and> Sleep 150 \<notin> set (HttpGet ?q # mid)"
      by simp
    then show ?thesis by blast
  next
    case (Inl x)
    show ?thesis
    proof (cases "is_RuntimeError x")
      case False
      then have "finish_row e tot i r ?q (None, None) (emit [LogError ?q x] ?s1) = (None, s')"
        using assms \<open>make_query r \<noteq> []\<close> g1 Inl by (simp add: process_row_def Let_def)
      from finish_row_paced [OF this]
      obtain mid where "trace s' = trace (emit [LogError ?q x] ?s1) @ mid @ [Sleep 150]"
        "Sleep 150 \<notin> set mid"
        by blast
      then have "trace s' = trace s @ (HttpGet ?q # LogError ?q x # mid) @ [Sleep 150]
          \<and> Sleep 150 \<notin> set (HttpGet ?q # LogError ?q x # mid)"
        by simp
      then show ?thesis by blast
    next
      case True
      let ?s2 = "emit [LogQuota i tot x, Sleep 10000] ?s1"
      let ?s3 = "emit [HttpGet ?q] (?s2\<lparr>calls := calls ?s2 + 1\<rparr>)"
      have g2: "geocode e ?q ?s2 = (fst (geocode e ?q ?s2), ?s3)"
        by (rule geocode_split)
      obtain c where c: "fst (geocode e ?q ?s2) = Inr c"
        and f: "finish_row e tot i r ?q c ?s3 = (None, s')"
        using assms \<open>make_query r \<noteq> []\<close> g1 g2 Inl True
        by (cases "fst (geocode e ?q ?s2)") (simp_all add: process_row_def Let_def)
      from finish_row_paced [OF f]
      obtain mid where "trace s' = trace ?s3 @ mid @ [Sleep 150]" "Sleep 150 \<notin> set mid"
        by blast
      then have "trace s' = trace s @ ([HttpGet ?q, LogQuota i tot x, Sleep 10000, HttpGet ?q] @ mid) @ [Sleep 150]
          \<and> Sleep 150 \<notin> set ([HttpGet ?q, LogQuota i tot x, Sleep 10000, HttpGet ?q] @ mid)"
        by simp
      then show ?thesis by blast
    qed
  qed
  then show ?thesis using False by simp
qed

theorem pacing_after_geocoded_row_witness:
  "make_query maple \<noteq> []
   \<and> (\<exists>mid. trace (snd (process_row env0 1 1 maple (init_state [maple]))) = mid @ [Sleep 150]
         \<and> Sleep 150 \<notin> set mid)"
proof -
  have a: "make_query maple \<noteq> []"
    by (simp add: run_defs ex_defs)
  have b: "fst (process_row env0 1 1 maple (init_state [maple])) = None"
    by (simp add: run_defs ex_defs Let_def)
  then have c: "process_row env0 1 1 maple (init_state [maple])
      = (None, snd (process_row env0 1 1 maple (init_state [maple])))"
    by (metis prod.collapse)
  show ?thesis
    using pacing_after_geocoded_row [OF c] a by (simp add: init_state_def)
qed

text \<open>
  C5, as stated, fails on a row with an empty query: the run over the table that
  holds only such a row returns without a single pause.
\<close>

theorem pacing_counterexample:
  "make_query blank = []
   \<and> main env0 [blank] =
       (Returned, \<lparr>db = [blank], txn = [blank], calls = 0, updated = 0,
          trace = [LogStarting, LogDsnHost ''db.example:5432'', Connect, LogLoading, SqlSelect,
            LogRowsToProcess 1, LogProgress 1 1 0, Commit, LogDone 0 1, Close]\<rparr>)
   \<and> Sleep 150 \<notin> set (trace (snd (main env0 [blank])))"
  by (simp add: run_defs ex_defs Let_def)

text \<open>
  C10. A row that holds exactly one coordinate is among the rows the SELECT fetches,
  and when its geocoding succeeds (the first call returns a pair, or the first call
  raises a RuntimeError and the retry returns a pair) and the store accepts the UPDATE,
  both coordinate columns of the row hold the provider's values afterwards: the
  coordinate it had is replaced.
\<close>

theorem one_coordinate_row_overwritten:
  assumes "r \<in> set (txn s)"
    and "(latitude r = None) \<noteq> (longitude r = None)"
    and "make_query r \<noteq> []"
    and "fst (geocode e (make_query r) s) = Inr (Some lat, Some lng)
       \<or> (\<exists>x. fst (geocode e (make_query r) s) = Inl x \<and> is_RuntimeError x
            \<and> fst (geocode e (make_query r)
                 (emit [LogQuota i tot x, Sleep 10000] (snd (geocode e (make_query r) s))))
               = Inr (Some lat, Some lng))"
    and "\<not> update_fails e (rid r)"
  shows "r \<in> set (select_targets (txn s))
     \<and> (\<exists>s'. process_row e tot i r s = (None, s')
          \<and> txn s' = sql_update e lat lng (rid r) (txn s)
          \<and> updated s' = updated s + 1
          \<and> SqlUpdate lat lng (rid r) \<in> set (trace s')
          \<and> r\<lparr>latitude := Some lat, longitude := Some lng, updated_at := Some (now e)\<rparr> \<in> set (txn s')
          \<and> (\<forall>r'\<in>set (txn s'). rid r' = rid r \<longrightarrow> latitude r' = Some lat \<and> longitude r' = Some lng))"
proof -
  let ?q = "make_query r"
  let ?s1 = "emit [HttpGet ?q] (s\<lparr>calls := calls s + 1\<rparr>)"
  have sel: "r \<in> set (select_targets (txn s))"
    using assms(1,2) by (auto simp: select_targets_def missing_def)
  have mem: "r\<lparr>latitude := Some lat, longitude := Some lng, updated_at := Some (now e)\<rparr>
      \<in> set (sql_update e lat lng (rid r) (txn s))"
    using assms(1) by (force simp: sql_update_def)
  have all: "\<forall>r'\<in>set (sql_update e lat lng (rid r) (txn s)).
      rid r' = rid r \<longrightarrow> latitude r' = Some lat \<and> longitude r' = Some lng"
    by (auto simp: sql_update_def)
  have "\<exists>s0. process_row e tot i r s = finish_row e tot i r ?q (Some lat, Some lng) s0
      \<and> txn s0 = txn s \<and> updated s0 = updated s"
    using assms(4)
  proof
    assume "fst (geocode e ?q s) = Inr (Some lat, Some lng)"
    then have g: "geocode e ?q s = (Inr (Some lat, Some lng), ?s1)"
      using geocode_split [of e ?q s] by simp
    have "process_row e tot i r s = finish_row e tot i r ?q (Some lat, Some lng) ?s1"
      using assms(3) by (simp add: process_row_def g Let_def)
    moreover have "txn ?s1 = txn s \<and> updated ?s1 = updated s"
      by simp
    ultimately show ?thesis by blast
  next
    assume "\<exists>x. fst (geocode e ?q s) = Inl x \<and> is_RuntimeError x
        \<and> fst (geocode e ?q (emit [LogQuota i tot x, Sleep 10000] (snd (geocode e ?q s))))
           = Inr (Some lat, Some lng)"
    then obtain x where x: "fst (geocode e ?q s) = Inl x" "is_RuntimeError x"
      and retry: "fst (geocode e ?q (emit [LogQuota i tot x, Sleep 10000] ?s1))
           = Inr (Some lat, Some lng)"
      by auto
    let ?s2 = "emit [LogQuota i tot x, Sleep 10000] ?s1"
    let ?s3 = "emit [HttpGet ?q] (?s2\<lparr>calls := calls ?s2 + 1\<rparr>)"
    have g1: "geocode e ?q s = (Inl x, ?s1)"
      using geocode_split [of e ?q s] x(1) by simp
    have g2: "geocode e ?q ?s2 = (Inr (Some lat, Some lng), ?s3)"
      using geocode_split [of e ?q ?s2] retry by simp
    have "process_row e tot i r s = finish_row e tot i r ?q (Some lat, Some lng) ?s3"
      using assms(3) x(2) g1 g2 by (simp add: process_row_def Let_def)
    moreover have "txn ?s3 = txn s \<and> updated ?s3 = updated s"
      by simp
    ultimately show ?thesis by blast
  qed
  then obtain s0 where p: "process_row e tot i r s = finish_row e tot i r ?q (Some lat, Some lng) s0"
    and s0: "txn s0 = txn s" "updated s0 = updated s"
    by blast
  show ?thesis
    using sel mem all s0 by (simp add: p finish_row_write [OF assms(5)])
qed

theorem one_coordinate_row_overwritten_witness:
  "latitude oak = Some (Fin 1) \<and> longitude oak = None
   \<and> map latitude (txn (snd (process_row env0 1 1 oak (init_state [oak])))) = [Some (Fin (401 / 10))]
   \<and> map longitude (txn (snd (process_row env0 1 1 oak (init_state [oak])))) = [Some (Fin (- 752 / 10))]
   \<and> fst (geocode env_retry (make_query oak) (init_state [oak]))
       = Inl (RuntimeError (JStr ''OVER_QUERY_LIMIT''))
   \<and> map latitude (txn (snd (process_row env_retry 1 1 oak (init_state [oak])))) = [Some (Fin (401 / 10))]
   \<and> map longitude (txn (snd (process_row env_retry 1 1 oak (init_state [oak])))) = [Some (Fin (- 752 / 10))]"
proof -
  have a: "oak \<in> set (txn (init_state [oak]))" "(latitude oak = None) \<noteq> (longitude oak = None)"
    "make_query oak \<noteq> []" "\<not> update_fails env0 (rid oak)" "\<not> update_fails env_retry (rid oak)"
    by (simp_all add: run_defs ex_defs)
  have g: "fst (geocode env0 (make_query oak) (init_state [oak]))
        = Inr (Some (Fin (401 / 10)), Some (Fin (- 752 / 10)))
      \<or> (\<exists>x. fst (geocode env0 (make_query oak) (init_state [oak])) = Inl x \<and> is_RuntimeError x
            \<and> fst (geocode env0 (make_query oak)
                 (emit [LogQuota 1 1 x, Sleep 10000] (snd (geocode env0 (make_query oak) (init_state [oak])))))
               = Inr (Some (Fin (401 / 10)), Some (Fin (- 752 / 10))))"
    by (simp add: run_defs ex_defs)
  have h: "fst (geocode env_retry (make_query oak) (init_state [oak]))
        = Inr (Some (Fin (401 / 10)), Some (Fin (- 752 / 10)))
      \<or> (\<exists>x. fst (geocode env_retry (make_query oak) (init_state [oak])) = Inl x \<and> is_RuntimeError x
            \<and> fst (geocode env_retry (make_query oak)
                 (emit [LogQuota 1 1 x, Sleep 10000] (snd (geocode env_retry (make_query oak) (init_state [oak])))))
               = Inr (Some (Fin (401 / 10)), Some (Fin (- 752 / 10))))"
    by (simp add: run_defs ex_defs)
  have first: "fst (geocode env_retry (make_query oak) (init_state [oak]))
      = Inl (RuntimeError (JStr ''OVER_QUERY_LIMIT''))"
    by (simp add: run_defs ex_defs)
  show ?thesis
    using one_coordinate_row_overwritten [OF a(1,2,3) g a(4)]
      one_coordinate_row_overwritten [OF a(1,2,3) h a(5)] first
    by (auto simp: sql_update_def init_state_def oak_def)
qed
section \<open>The whole run\<close>

text \<open>
  C1, on the code. The provider answers the request for row 3 and reports
  OVER\_QUERY\_LIMIT for both requests of row 7. The RuntimeError of the second
  request (line 76, inside the handler of the first) leaves the loop: the run rolls
  back the UPDATE of row 3, logs FATAL and raises, where the claim has the row skipped
  with a warning and the run going on.
\<close>

theorem quota_retry_failure_aborts_run:
  "main env_quota [oak, maple] =
     (Raised (RuntimeError (JStr ''OVER_QUERY_LIMIT'')),
      \<lparr>db = [oak, maple], txn = [oak, maple], calls = 3, updated = 1,
       trace = [LogStarting, LogDsnHost ''db.example:5432'', Connect, LogLoading, SqlSelect,
         LogRowsToProcess 2,
         HttpGet ''Oak House, Blacksburg, VA'', SqlUpdate (Fin (401 / 10)) (Fin (- 752 / 10)) 3,
         Sleep 150,
         HttpGet ''Maple Court, 10 Elm St, Springfield, 00001'',
         LogQuota 2 2 (RuntimeError (JStr ''OVER_QUERY_LIMIT'')), Sleep 10000,
         HttpGet ''Maple Court, 10 Elm St, Springfield, 00001'',
         Rollback, LogFatal (RuntimeError (JStr ''OVER_QUERY_LIMIT'')), Close]\<rparr>)"
  by (simp add: run_defs ex_defs Let_def)

theorem quota_retry_failure_aborts_run_witness:
  "fst (main env_quota [oak, maple]) = Raised (RuntimeError (JStr ''OVER_QUERY_LIMIT''))
   \<and> db (snd (main env_quota [oak, maple])) = [oak, maple]
   \<and> updated (snd (main env_quota [oak, maple])) = 1
   \<and> Rollback \<in> set (trace (snd (main env_quota [oak, maple])))"
  using quota_retry_failure_aborts_run by simp

text \<open>
  C2. Once the connection is open, every run ends by closing it. A run that ends with
  an exception (a failed SELECT, UPDATE or COMMIT, or an error that left the loop) has
  rolled back, logged FATAL with that exception and raised it again: the committed
  table is the one the run started from, whatever the counter \<open>updated\<close> says.
  A run that returns has committed.
\<close>

theorem fatal_rollback:
  assumes "present (PG_DSN e)" and "present (GOOGLE_KEY e)" and "\<not> connect_fails e"
    and "main e tbl = (out, s)"
  shows "out \<noteq> SystemExit \<and> last (trace s) = Close
     \<and> (\<forall>x. out = Raised x \<longrightarrow>
           db s = tbl \<and> txn s = tbl \<and> (\<exists>pre. trace s = pre @ [Rollback, LogFatal x, Close]))
     \<and> (out = Returned \<longrightarrow> (\<exists>pre u n. trace s = pre @ [Commit, LogDone u n, Close]))"
proof -
  let ?s1 = "emit [Connect] (emit [LogStarting, LogDsnHost (dsn_host (the (PG_DSN e)))] (init_state tbl))"
  obtain res s2 where t: "try_block e ?s1 = (res, s2)"
    by (cases "try_block e ?s1")
  have d: "db ?s1 = tbl"
    by (simp add: init_state_def)
  show ?thesis
  proof (cases res)
    case None
    then have m: "out = Returned" "s = emit [Close] s2"
      using assms t by (simp_all add: main_def Let_def)
    from try_block_commit [of e ?s1 s2] t None
    obtain pre u n where "trace s2 = pre @ [Commit, LogDone u n]"
      by blast
    then show ?thesis using m by simp
  next
    case (Some x)
    then have m: "out = Raised x" "s = emit [Rollback, LogFatal x, Close] (s2\<lparr>txn := db s2\<rparr>)"
      using assms t by (simp_all add: main_def Let_def)
    have "db s2 = tbl"
      using try_block_frame [OF t] Some d by simp
    then show ?thesis using m by (simp add: emit_def)
  qed
qed

theorem fatal_rollback_witness:
  "fst (main env_store [oak, maple]) = Raised DatabaseError
   \<and> updated (snd (main env_store [oak, maple])) = 1
   \<and> db (snd (main env_store [oak, maple])) = [oak, maple]
   \<and> last (trace (snd (main env_store [oak, maple]))) = Close
   \<and> (\<exists>pre. trace (snd (main env_store [oak, maple])) = pre @ [Rollback, LogFatal DatabaseError, Close])"
proof -
  have a: "present (PG_DSN env_store)" "present (GOOGLE_KEY env_store)" "\<not> connect_fails env_store"
    by (simp_all add: env_store_def env0_def present_def)
  have b: "main env_store [oak, maple] = (fst (main env_store [oak, maple]), snd (main env_store [oak, maple]))"
    by simp
  have c: "fst (main env_store [oak, maple]) = Raised DatabaseError"
    by (simp add: run_defs ex_defs Let_def)
  have u: "updated (snd (main env_store [oak, maple])) = 1"
    by (simp add: run_defs ex_defs Let_def)
  show ?thesis
    using fatal_rollback [OF a b] c u by simp
qed

text \<open>
  C9, as the code has it. The program never writes exactly one coordinate to a row:
  geocode returns both coordinates (as the floats float() makes of the reply, finite or
  not) or both None; without both, the writer issues no statement; the UPDATE sets
  latitude, longitude and updated\_at of the row together; so after any number of
  iterations, and after the run, every row has kept its coordinate columns or holds
  both.
\<close>

theorem coordinates_written_in_pairs:
  "(fst (geocode e q s) = Inr (a, b) \<longrightarrow> (a = None \<and> b = None) \<or> (a \<noteq> None \<and> b \<noteq> None))
   \<and> (a = None \<or> b = None \<longrightarrow>
        write_row e r q (a, b) s = (None, emit [LogNoMatch q] s))
   \<and> (\<forall>r'\<in>set (sql_update e x y k t).
        rid r' = k \<longrightarrow> latitude r' = Some x \<and> longitude r' = Some y \<and> updated_at r' = Some (now e))
   \<and> (process_rows e tot i rows s = (res, s') \<longrightarrow> list_all2 coords_paired (txn s) (txn s'))
   \<and> (main e tbl = (out, s'') \<longrightarrow> list_all2 coords_paired tbl (db s''))"
proof -
  have 1: "fst (geocode e q s) = Inr (a, b) \<longrightarrow> (a = None \<and> b = None) \<or> (a \<noteq> None \<and> b \<noteq> None)"
    using geocode_pair by blast
  have 2: "a = None \<or> b = None \<longrightarrow> write_row e r q (a, b) s = (None, emit [LogNoMatch q] s)"
    by (auto simp: write_row_def split: option.splits)
  have 3: "\<forall>r'\<in>set (sql_update e x y k t).
        rid r' = k \<longrightarrow> latitude r' = Some x \<and> longitude r' = Some y \<and> updated_at r' = Some (now e)"
  proof
    fix r' assume "r' \<in> set (sql_update e x y k t)"
    then have "r' \<in> (\<lambda>r. if rid r = k
        then r\<lparr>latitude := Some x, longitude := Some y, updated_at := Some (now e)\<rparr> else r) ` set t"
      by (simp add: sql_update_def)
    then obtain r0 where "r' = (if rid r0 = k
        then r0\<lparr>latitude := Some x, longitude := Some y, updated_at := Some (now e)\<rparr> else r0)"
      by blast
    then show "rid r' = k \<longrightarrow>
        latitude r' = Some x \<and> longitude r' = Some y \<and> updated_at r' = Some (now e)"
      by (cases "rid r0 = k") simp_all
  qed
  have 4: "process_rows e tot i rows s = (res, s') \<longrightarrow> list_all2 coords_paired (txn s) (txn s')"
  proof
    assume "process_rows e tot i rows s = (res, s')"
    from process_rows_frame [OF this] show "list_all2 coords_paired (txn s) (txn s')"
      by (blast intro: changed_only_paired)
  qed
  have 5: "main e tbl = (out, s'') \<longrightarrow> list_all2 coords_paired tbl (db s'')"
  proof
    assume "main e tbl = (out, s'')"
    from main_frame [OF this] show "list_all2 coords_paired tbl (db s'')"
      by (rule changed_only_paired)
  qed
  show ?thesis
    by (rule conjI [OF 1 conjI [OF 2 conjI [OF 3 conjI [OF 4 5]]]])
qed

theorem coordinates_written_in_pairs_witness:
  "fst (geocode env0 ''Oak House, Blacksburg, VA'' (init_state [oak, maple]))
     = Inr (Some (Fin (401 / 10)), Some (Fin (- 752 / 10)))
   \<and> list_all2 coords_paired [oak, maple] (db (snd (main env0 [oak, maple])))
   \<and> map latitude (db (snd (main env0 [oak, maple]))) = [Some (Fin (401 / 10)), Some (Fin (401 / 10))]"
proof -
  have m: "main env0 [oak, maple] = (fst (main env0 [oak, maple]), snd (main env0 [oak, maple]))"
    by simp
  have g: "fst (geocode env0 ''Oak House, Blacksburg, VA'' (init_state [oak, maple]))
     = Inr (Some (Fin (401 / 10)), Some (Fin (- 752 / 10)))"
    by (simp add: run_defs ex_defs)
  have l: "map latitude (db (snd (main env0 [oak, maple]))) = [Some (Fin (401 / 10)), Some (Fin (401 / 10))]"
    by (simp add: run_defs ex_defs Let_def)
  have "list_all2 coords_paired [oak, maple] (db (snd (main env0 [oak, maple])))"
    using coordinates_written_in_pairs [THEN conjunct2, THEN conjunct2, THEN conjunct2,
        THEN conjunct2, THEN mp, OF m] .
  then show ?thesis
    using g l by simp
qed

text \<open>
  C9, as stated, fails on "finite": for the body
  \<open>{"status": "OK", "results": [{"geometry": {"location": {"lat": 1e999, "lng": 0.0}}}]}\<close>
  geocode returns the pair (inf, 0.0), and the run commits it.
\<close>

theorem finite_coordinates_counterexample:
  "fst (geocode env_inf ''Maple Court, 10 Elm St, Springfield, 00001'' (init_state [maple]))
     = Inr (Some PosInf, Some (Fin 0))
   \<and> \<not> finite_float PosInf
   \<and> fst (main env_inf [maple]) = Returned
   \<and> map latitude (db (snd (main env_inf [maple]))) = [Some PosInf]"
  by (simp add: run_defs ex_defs Let_def)

text \<open>
  C8. Two runs in succession over a table with unique identifiers, nothing else
  touching the table in between. Every row the first run changed holds both
  coordinates and is not among the rows the second run selects (latitude null or
  longitude null, in ascending order of identifier); when the first run returns, that
  holds for the rows of every UPDATE it issued; and every row the second run changes
  is one that was still missing a coordinate after the first.
\<close>

theorem rerun_updates_only_missing:
  assumes "distinct (map rid tbl)"
    and "main e1 tbl = (o1, s1)"
    and "main e2 (db s1) = (o2, s2)"
  shows "length (db s1) = length tbl \<and> length (db s2) = length tbl
     \<and> (\<forall>j<length tbl.
          (db s1 ! j \<noteq> tbl ! j \<longrightarrow>
             latitude (db s1 ! j) \<noteq> None \<and> longitude (db s1 ! j) \<noteq> None
             \<and> db s1 ! j \<notin> set (select_targets (db s1)))
          \<and> (db s2 ! j \<noteq> db s1 ! j \<longrightarrow> db s1 ! j \<in> set (select_targets (db s1))))
     \<and> (o1 = Returned \<longrightarrow>
          (\<forall>x y k. SqlUpdate x y k \<in> set (trace s1) \<longrightarrow>
             (\<forall>r\<in>set (db s1). rid r = k \<longrightarrow> r \<notin> set (select_targets (db s1)))))
     \<and> set (select_targets (db s1)) = {r \<in> set (db s1). latitude r = None \<or> longitude r = None}
     \<and> sorted (map rid (select_targets (db s1)))"
proof -
  have c1: "changed_only (rid ` set (select_targets tbl)) tbl (db s1)"
    using assms(2) by (rule main_frame)
  have c2: "changed_only (rid ` set (select_targets (db s1))) (db s1) (db s2)"
    using assms(3) by (rule main_frame)
  have l1: "length (db s1) = length tbl"
    using c1 by (rule changed_only_length)
  have l2: "length (db s2) = length tbl"
    using c2 l1 by (simp add: changed_only_length)
  have d1: "distinct (map rid (db s1))"
    using assms(1) changed_only_rid [OF c1] by simp
  have rows: "\<forall>j<length tbl.
          (db s1 ! j \<noteq> tbl ! j \<longrightarrow>
             latitude (db s1 ! j) \<noteq> None \<and> longitude (db s1 ! j) \<noteq> None
             \<and> db s1 ! j \<notin> set (select_targets (db s1)))
          \<and> (db s2 ! j \<noteq> db s1 ! j \<longrightarrow> db s1 ! j \<in> set (select_targets (db s1)))"
  proof (intro allI impI conjI)
    fix j assume j: "j < length tbl" and ch: "db s1 ! j \<noteq> tbl ! j"
    from changed_only_nth [OF c1 j] ch
    show "latitude (db s1 ! j) \<noteq> None" and "longitude (db s1 ! j) \<noteq> None"
      by (auto simp: touched_def)
    then show "db s1 ! j \<notin> set (select_targets (db s1))"
      by (simp add: select_targets_set)
  next
    fix j assume j: "j < length tbl" and ch: "db s2 ! j \<noteq> db s1 ! j"
    have j1: "j < length (db s1)"
      using j l1 by simp
    from changed_only_nth [OF c2 j1] ch
    have "rid (db s1 ! j) \<in> rid ` set (select_targets (db s1))"
      by (auto simp: touched_def)
    then obtain r where r: "r \<in> set (select_targets (db s1))" "rid r = rid (db s1 ! j)"
      by auto
    then have "r \<in> set (db s1)"
      by (simp add: select_targets_set)
    from distinct_rid_unique [OF d1 this j1 r(2)] r(1)
    show "db s1 ! j \<in> set (select_targets (db s1))"
      by simp
  qed
  have ev: "o1 = Returned \<longrightarrow>
          (\<forall>x y k. SqlUpdate x y k \<in> set (trace s1) \<longrightarrow>
             (\<forall>r\<in>set (db s1). rid r = k \<longrightarrow> r \<notin> set (select_targets (db s1))))"
  proof
    assume "o1 = Returned"
    then have "main e1 tbl = (Returned, s1)"
      using assms(2) by simp
    from main_written [OF this]
    show "\<forall>x y k. SqlUpdate x y k \<in> set (trace s1) \<longrightarrow>
             (\<forall>r\<in>set (db s1). rid r = k \<longrightarrow> r \<notin> set (select_targets (db s1)))"
      by (simp add: select_targets_set)
  qed
  show ?thesis
    by (rule conjI [OF l1 conjI [OF l2 conjI [OF rows conjI [OF ev
          conjI [OF select_targets_set select_targets_sorted]]]]])
qed

theorem rerun_updates_only_missing_witness:
  "distinct (map rid [oak, maple])
   \<and> map latitude (db (snd (main env_first [oak, maple]))) = [Some (Fin (401 / 10)), None]
   \<and> map rid (select_targets (db (snd (main env_first [oak, maple])))) = [7]
   \<and> db (snd (main env_first [oak, maple])) ! 0 \<notin> set (select_targets (db (snd (main env_first [oak, maple]))))
   \<and> length (db (snd (main env0 (db (snd (main env_first [oak, maple])))))) = 2"
proof -
  let ?s1 = "snd (main env_first [oak, maple])"
  have d: "distinct (map rid [oak, maple])"
    by (simp add: oak_def maple_def)
  have m1: "main env_first [oak, maple] = (fst (main env_first [oak, maple]), ?s1)"
    by simp
  have m2: "main env0 (db ?s1) = (fst (main env0 (db ?s1)), snd (main env0 (db ?s1)))"
    by simp
  have lat: "map latitude (db ?s1) = [Some (Fin (401 / 10)), None]"
    by (simp add: run_defs ex_defs env_first_def Let_def)
  have sel: "map rid (select_targets (db ?s1)) = [7]"
    by (simp add: run_defs ex_defs env_first_def Let_def)
  have ch: "db ?s1 ! 0 \<noteq> [oak, maple] ! 0"
    by (simp add: run_defs ex_defs env_first_def Let_def)
  note t = rerun_updates_only_missing [OF d m1 m2]
  have "length (db (snd (main env0 (db ?s1)))) = length [oak, maple]"
    using t by blast
  moreover have "db ?s1 ! 0 \<notin> set (select_targets (db ?s1))"
    using t ch by force
  ultimately show ?thesis
    using d lat sel by simp
qed

end
